theory Spec2Isabelle
  imports Main "HOL-Library.Sublist"
begin

section \<open>Metric export of the Go plugin manager (pluginmanager/metric_export.go)\<close>

text \<open>
  One metric record is a Go \<^verbatim>\<open>map[string]string\<close>: a partial map from string keys to
  string values. A Go slice value is either nil or a sequence of elements; the difference
  is kept, since the export functions build their results with \<^verbatim>\<open>make\<close>, a composite
  literal and \<^verbatim>\<open>append\<close>.
\<close>

type_synonym metric = "string \<rightharpoonup> string"

datatype 'a slice = NilSlice | Slice "'a list"

fun items :: "'a slice \<Rightarrow> 'a list" where
  "items NilSlice = []"
| "items (Slice xs) = xs"

text \<open>
  \<^verbatim>\<open>append(s, t...)\<close>: appending nothing returns \<open>s\<close> itself (a nil slice stays nil),
  appending at least one element always yields a slice that is not nil.
\<close>

fun append_slice :: "'a slice \<Rightarrow> 'a slice \<Rightarrow> 'a slice" where
  "append_slice NilSlice t = (if items t = [] then NilSlice else Slice (items t))"
| "append_slice (Slice xs) t = Slice (xs @ items t)"

definition MetricExportTypeGo :: string where
  "MetricExportTypeGo = ''direct''"

definition MetricExportTypeCpp :: string where
  "MetricExportTypeCpp = ''cpp_provided''"

text \<open>
  What the export reads from outside the file: the records each loaded pipeline
  configuration exports (\<^verbatim>\<open>config.Context.ExportMetricRecords()\<close>, in the order the range
  over \<^verbatim>\<open>LogtailConfig\<close> visits them), the records of the Kubernetes meta manager, the two
  agent metric keys of package \<^verbatim>\<open>helper\<close>, the order in which the range over the map
  \<^verbatim>\<open>metricNames\<close> visits its two keys, and the Go runtime's samples. A runtime
  sample is an unsigned 64-bit count, a float (carried as the text
  \<^verbatim>\<open>strconv.FormatFloat(v, 'g', -1, 64)\<close> gives for it) or of kind bad.
\<close>

datatype sample_value = KindUint64 nat | KindFloat64 string | KindBad

record go_env =
  ExportMetricRecords :: "metric slice list"
  GetMetaManagerMetrics :: "metric slice"
  MetricAgentMemoryGo :: string
  MetricAgentGoRoutinesTotal :: string
  range_metricNames_reversed :: bool
  runtime_Read :: "string \<Rightarrow> sample_value"

text \<open>\<^verbatim>\<open>strconv.FormatUint(n, 10)\<close>: the decimal digits of \<open>n\<close>.\<close>

definition digit_char :: "nat \<Rightarrow> char" where
  "digit_char d = char_of (48 + d)"

fun FormatUint :: "nat \<Rightarrow> string" where
  "FormatUint n = (if n < 10 then [digit_char n] else FormatUint (n div 10) @ [digit_char (n mod 10)])"

declare FormatUint.simps [simp del]

text \<open>\<^verbatim>\<open>strings.HasSuffix(s, suffix)\<close>.\<close>

definition HasSuffix :: "string \<Rightarrow> string \<Rightarrow> bool" where
  "HasSuffix s suf = (length suf \<le> length s \<and> drop (length s - length suf) s = suf)"

text \<open>
  The map literal \<^verbatim>\<open>metricNames\<close> of \<^verbatim>\<open>GetAgentStat\<close>; indexing a Go map with a key it does
  not hold gives the empty string.
\<close>

definition metricNames :: "go_env \<Rightarrow> (string \<times> string) list" where
  "metricNames env =
     [(''/memory/classes/total:bytes'', MetricAgentMemoryGo env),
      (''/sched/goroutines:goroutines'', MetricAgentGoRoutinesTotal env)]"

definition metricNames_at :: "go_env \<Rightarrow> string \<Rightarrow> string" where
  "metricNames_at env name = (case map_of (metricNames env) name of None \<Rightarrow> [] | Some k \<Rightarrow> k)"

definition sample_valueStr :: "string \<Rightarrow> sample_value \<Rightarrow> string" where
  "sample_valueStr key v =
     (case v of
        KindUint64 n \<Rightarrow>
          (if HasSuffix key ''_mb'' then FormatUint (n div 1024 div 1024) else FormatUint n)
      | KindFloat64 s \<Rightarrow> s
      | KindBad \<Rightarrow> [])"

definition push_sample :: "go_env \<Rightarrow> string \<Rightarrow> metric \<Rightarrow> metric" where
  "push_sample env name m =
     (let key = metricNames_at env name
      in m(key \<mapsto> sample_valueStr key (runtime_Read env name)))"

definition range_metricNames :: "go_env \<Rightarrow> string list" where
  "range_metricNames env =
     (if range_metricNames_reversed env then rev (map fst (metricNames env))
      else map fst (metricNames env))"

definition GetAgentStat :: "go_env \<Rightarrow> metric slice" where
  "GetAgentStat env =
     append_slice (Slice []) (Slice [fold (push_sample env) (range_metricNames env) Map.empty])"

definition GetGoPluginMetrics :: "go_env \<Rightarrow> metric slice" where
  "GetGoPluginMetrics env = fold (\<lambda>recs metrics. append_slice metrics recs) (ExportMetricRecords env) (Slice [])"

definition GetGoDirectMetrics :: "go_env \<Rightarrow> metric slice" where
  "GetGoDirectMetrics env =
     append_slice (append_slice (Slice []) (GetGoPluginMetrics env)) (GetMetaManagerMetrics env)"

definition GetGoCppProvidedMetrics :: "go_env \<Rightarrow> metric slice" where
  "GetGoCppProvidedMetrics env = append_slice (Slice []) (GetAgentStat env)"

definition GetMetrics :: "go_env \<Rightarrow> string \<Rightarrow> metric slice" where
  "GetMetrics env metricType =
     (if metricType = MetricExportTypeGo then GetGoDirectMetrics env
      else if metricType = MetricExportTypeCpp then GetGoCppProvidedMetrics env
      else Slice [])"

section \<open>The RFC 3164 syslog parser (external/github.com/jeromer/syslogparser/rfc3164/rfc3164.go)\<close>

text \<open>
  A Go \<^verbatim>\<open>[]byte\<close> is a \<open>char list\<close> (a \<open>char\<close> is one byte) and a Go \<^verbatim>\<open>int\<close> is an
  \<open>int\<close>: the cursor and the length stay between 0 and the length of the buffer plus one on
  every path from \<^verbatim>\<open>NewParser\<close>, far from the 64-bit bounds and below \<open>2 ^ 53\<close>, where the
  conversions through \<^verbatim>\<open>float64\<close> in \<^verbatim>\<open>parseTag\<close> are exact. A run-time panic is a value
  of its own, apart from the \<^verbatim>\<open>error\<close> values the methods return.
\<close>

datatype panic = IndexOutOfRange | SliceBoundsOutOfRange

datatype error = ErrEOL | ErrTimestampUnknownFormat | ErrOther string

text \<open>\<^verbatim>\<open>b[i]\<close> and \<^verbatim>\<open>b[lo:hi]\<close> on a slice whose capacity is its length.\<close>

definition index_at :: "char list \<Rightarrow> int \<Rightarrow> panic + char" where
  "index_at b i = (if 0 \<le> i \<and> i < int (length b) then Inr (b ! nat i) else Inl IndexOutOfRange)"

definition slice_of :: "char list \<Rightarrow> int \<Rightarrow> int \<Rightarrow> panic + char list" where
  "slice_of b lo hi =
     (if 0 \<le> lo \<and> lo \<le> hi \<and> hi \<le> int (length b)
      then Inr (take (nat (hi - lo)) (drop (nat lo) b))
      else Inl SliceBoundsOutOfRange)"

record Priority =
  P :: int
  F_Value :: int
  S_Value :: int

record 'ts header =
  timestamp :: 'ts
  header_hostname :: string

record rfc3164message =
  tag :: string
  content :: string

record 'ts Parser =
  buff :: "char list"
  cursor :: int
  l :: int
  priority :: Priority
  version :: int
  header :: "'ts header"
  message :: rfc3164message
  location :: string
  hostname :: string

text \<open>
  What the parser calls outside its file: \<^verbatim>\<open>syslogparser.ParsePriority\<close> and
  \<^verbatim>\<open>syslogparser.ParseHostname\<close> (each takes the buffer, the cursor and the length, and gives
  its value, its error and the cursor it leaves), the constant \<^verbatim>\<open>syslogparser.NO_VERSION\<close>,
  and package \<^verbatim>\<open>time\<close>: \<^verbatim>\<open>time.ParseInLocation(layout, value, location)\<close>, the zero
  \<^verbatim>\<open>time.Time\<close>, \<^verbatim>\<open>ts.Year()\<close>, \<^verbatim>\<open>time.Now().Year()\<close>, and \<^verbatim>\<open>time.Date\<close> applied to a
  year and the other fields of a time.
\<close>

record 'ts syslog_env =
  ParsePriority :: "char list \<Rightarrow> int \<Rightarrow> int \<Rightarrow> panic + (Priority \<times> error option \<times> int)"
  ParseHostname :: "char list \<Rightarrow> int \<Rightarrow> int \<Rightarrow> panic + (string \<times> error option \<times> int)"
  NO_VERSION :: int
  ParseInLocation :: "string \<Rightarrow> string \<Rightarrow> string \<Rightarrow> 'ts \<times> error option"
  zero_Time :: 'ts
  Time_Year :: "'ts \<Rightarrow> int"
  Now_Year :: int
  Date_with_year :: "int \<Rightarrow> 'ts \<Rightarrow> 'ts"

definition zero_Priority :: Priority where
  "zero_Priority = \<lparr>P = 0, F_Value = 0, S_Value = 0\<rparr>"

definition NewParser :: "'ts syslog_env \<Rightarrow> char list \<Rightarrow> 'ts Parser" where
  "NewParser env b =
     \<lparr>buff = b, cursor = 0, l = int (length b), priority = zero_Priority, version = 0,
      header = \<lparr>timestamp = zero_Time env, header_hostname = []\<rparr>,
      message = \<lparr>tag = [], content = []\<rparr>, location = ''UTC'', hostname = []\<rparr>"

definition Hostname :: "'ts Parser \<Rightarrow> string \<Rightarrow> 'ts Parser" where
  "Hostname p h = p\<lparr>hostname := h\<rparr>"

definition parsePriority ::
  "'ts syslog_env \<Rightarrow> 'ts Parser \<Rightarrow> panic + (Priority \<times> error option \<times> 'ts Parser)" where
  "parsePriority env p =
     (case ParsePriority env (buff p) (cursor p) (l p) of
        Inl e \<Rightarrow> Inl e
      | Inr (pri, err, c) \<Rightarrow> Inr (pri, err, p\<lparr>cursor := c\<rparr>))"

definition fixTimestampIfNeeded :: "'ts syslog_env \<Rightarrow> 'ts \<Rightarrow> 'ts" where
  "fixTimestampIfNeeded env ts =
     (let y = (if Time_Year env ts = 0 then Now_Year env else Time_Year env ts)
      in Date_with_year env y ts)"

definition tsFmts :: "string list" where
  "tsFmts = [''Jan 02 15:04:05'', ''Jan  2 15:04:05'']"

text \<open>
  The loop over the two layouts, carrying \<open>ts\<close> and \<open>tsFmtLen\<close>; it yields them with
  \<open>found\<close>.
\<close>

fun parseTimestamp_loop ::
  "'ts syslog_env \<Rightarrow> 'ts Parser \<Rightarrow> string list \<Rightarrow> 'ts \<Rightarrow> int \<Rightarrow> panic + ('ts \<times> int \<times> bool)" where
  "parseTimestamp_loop env p [] ts tsFmtLen = Inr (ts, tsFmtLen, False)"
| "parseTimestamp_loop env p (tsFmt # rest) ts tsFmtLen =
     (let n = int (length tsFmt)
      in if cursor p + n > l p then parseTimestamp_loop env p rest ts n
         else (case slice_of (buff p) (cursor p) (n + cursor p) of
                 Inl e \<Rightarrow> Inl e
               | Inr sub \<Rightarrow>
                   (case ParseInLocation env tsFmt sub (location p) of
                      (ts', None) \<Rightarrow> Inr (ts', n, True)
                    | (ts', Some err) \<Rightarrow> parseTimestamp_loop env p rest ts' n)))"

text \<open>\<^verbatim>\<open>if (p.cursor < p.l) && (p.buff[p.cursor] == ' ') { p.cursor++ }\<close>\<close>

definition skip_space_guarded :: "'ts Parser \<Rightarrow> panic + 'ts Parser" where
  "skip_space_guarded p =
     (if cursor p < l p
      then (case index_at (buff p) (cursor p) of
              Inl e \<Rightarrow> Inl e
            | Inr b \<Rightarrow> Inr (if b = CHR '' '' then p\<lparr>cursor := cursor p + 1\<rparr> else p))
      else Inr p)"

definition parseTimestamp ::
  "'ts syslog_env \<Rightarrow> 'ts Parser \<Rightarrow> panic + ('ts \<times> error option \<times> 'ts Parser)" where
  "parseTimestamp env p =
     (case parseTimestamp_loop env p tsFmts (zero_Time env) 0 of
        Inl e \<Rightarrow> Inl e
      | Inr (ts, tsFmtLen, found) \<Rightarrow>
          if \<not> found
          then (case skip_space_guarded (p\<lparr>cursor := tsFmtLen\<rparr>) of
                  Inl e \<Rightarrow> Inl e
                | Inr p' \<Rightarrow> Inr (ts, Some ErrTimestampUnknownFormat, p'))
          else (case skip_space_guarded (p\<lparr>cursor := cursor p + tsFmtLen\<rparr>) of
                  Inl e \<Rightarrow> Inl e
                | Inr p' \<Rightarrow> Inr (fixTimestampIfNeeded env ts, None, p')))"

definition parseHostname ::
  "'ts syslog_env \<Rightarrow> 'ts Parser \<Rightarrow> panic + (string \<times> error option \<times> 'ts Parser)" where
  "parseHostname env p =
     (if hostname p \<noteq> [] then Inr (hostname p, None, p)
      else (case ParseHostname env (buff p) (cursor p) (l p) of
              Inl e \<Rightarrow> Inl e
            | Inr (h, err, c) \<Rightarrow> Inr (h, err, p\<lparr>cursor := c\<rparr>)))"

definition parseHeader ::
  "'ts syslog_env \<Rightarrow> 'ts Parser \<Rightarrow> panic + ('ts header \<times> error option \<times> 'ts Parser)" where
  "parseHeader env p =
     (let hdr = \<lparr>timestamp = zero_Time env, header_hostname = []\<rparr>
      in case parseTimestamp env p of
           Inl e \<Rightarrow> Inl e
         | Inr (ts, err, p1) \<Rightarrow>
             if err \<noteq> None then Inr (hdr, err, p1)
             else (case parseHostname env p1 of
                     Inl e \<Rightarrow> Inl e
                   | Inr (h, err', p2) \<Rightarrow>
                       if err' \<noteq> None then Inr (hdr, err', p2)
                       else Inr (\<lparr>timestamp = ts, header_hostname = h\<rparr>, None, p2)))"

text \<open>
  The loop of \<^verbatim>\<open>parseTag\<close>, carrying the cursor, the tag and \<open>enough\<close>; it runs while the
  cursor is below \<open>limit\<close> and gives the cursor and the tag it ends with.
\<close>

function parseTag_loop ::
  "char list \<Rightarrow> int \<Rightarrow> int \<Rightarrow> char list \<Rightarrow> bool \<Rightarrow> panic + (int \<times> char list)" where
  "parseTag_loop b limit c tg enough =
     (if c < limit
      then (case index_at b c of
              Inl e \<Rightarrow> Inl e
            | Inr x \<Rightarrow>
                if x = CHR '' '' then Inr (c + 1, tg)
                else if x = CHR ''['' \<or> x = CHR '']'' \<or> x = CHR '':'' \<or> enough
                  then parseTag_loop b limit (c + 1) tg True
                else parseTag_loop b limit (c + 1) (tg @ [x]) enough)
      else Inr (c, tg))"
  by pat_completeness auto
termination
  by (relation "measure (\<lambda>(b, limit, c, tg, enough). nat (limit - c))") auto

declare parseTag_loop.simps [simp del]

definition parseTag ::
  "'ts Parser \<Rightarrow> panic + (string \<times> error option \<times> 'ts Parser)" where
  "parseTag p =
     (let previous = cursor p;
          limit = min (l p) (cursor p + 32)
      in case parseTag_loop (buff p) limit (cursor p) [] False of
           Inl e \<Rightarrow> Inl e
         | Inr (c, tg) \<Rightarrow>
             Inr (tg, None, p\<lparr>cursor := (if length tg = 0 then previous else c)\<rparr>))"

text \<open>\<^verbatim>\<open>bytes.Trim(s, " ")\<close>: \<open>s\<close> without its leading and trailing spaces.\<close>

definition Trim_space :: "char list \<Rightarrow> char list" where
  "Trim_space s = rev (dropWhile (\<lambda>x. x = CHR '' '') (rev (dropWhile (\<lambda>x. x = CHR '' '') s)))"

definition parseContent ::
  "'ts Parser \<Rightarrow> panic + (string \<times> error option \<times> 'ts Parser)" where
  "parseContent p =
     (if cursor p > l p then Inr ([], Some ErrEOL, p)
      else (case slice_of (buff p) (cursor p) (l p) of
              Inl e \<Rightarrow> Inl e
            | Inr s \<Rightarrow>
                (let content = Trim_space s
                 in Inr (content, Some ErrEOL, p\<lparr>cursor := cursor p + int (length content)\<rparr>))))"

definition parsemessage ::
  "'ts Parser \<Rightarrow> panic + (rfc3164message \<times> error option \<times> 'ts Parser)" where
  "parsemessage p =
     (let msg = \<lparr>tag = [], content = []\<rparr>
      in case parseTag p of
           Inl e \<Rightarrow> Inl e
         | Inr (tg, err, p1) \<Rightarrow>
             if err \<noteq> None then Inr (msg, err, p1)
             else (case parseContent p1 of
                     Inl e \<Rightarrow> Inl e
                   | Inr (ct, err', p2) \<Rightarrow>
                       if err' \<noteq> Some ErrEOL then Inr (msg, err', p2)
                       else Inr (\<lparr>tag = tg, content = ct\<rparr>, err', p2)))"

text \<open>
  \<^verbatim>\<open>Parse\<close> gives the error it returns (\<open>None\<close> for nil) and the parser it leaves, or the
  panic that aborts it. The read \<^verbatim>\<open>p.buff[p.cursor]\<close> between the header and the message
  has no test of the cursor against the length before it.
\<close>

definition Parse :: "'ts syslog_env \<Rightarrow> 'ts Parser \<Rightarrow> panic + (error option \<times> 'ts Parser)" where
  "Parse env p =
     (case parsePriority env p of
        Inl e \<Rightarrow> Inl e
      | Inr (pri, err, p1) \<Rightarrow>
          if err \<noteq> None then Inr (err, p1)
          else (case parseHeader env p1 of
                  Inl e \<Rightarrow> Inl e
                | Inr (hdr, err1, p2) \<Rightarrow>
                    if err1 \<noteq> None then Inr (err1, p2)
                    else (case index_at (buff p2) (cursor p2) of
                            Inl e \<Rightarrow> Inl e
                          | Inr x \<Rightarrow>
                              (let p3 = (if x = CHR '' '' then p2\<lparr>cursor := cursor p2 + 1\<rparr> else p2)
                               in case parsemessage p3 of
                                    Inl e \<Rightarrow> Inl e
                                  | Inr (msg, err2, p4) \<Rightarrow>
                                      if err2 \<noteq> Some ErrEOL then Inr (err2, p4)
                                      else Inr (None, p4\<lparr>priority := pri, version := NO_VERSION env,
                                                            header := hdr, message := msg\<rparr>)))))"

text \<open>
  Inputs for evaluating the parser: helpers that accept the priority \<^verbatim>\<open><34>\<close> and leave the
  cursor behind it, accept the time stamp, and find no host name at the end of the buffer;
  and a parser standing before the bytes \<^verbatim>\<open>:ab\<close>.
\<close>

definition example_syslog_env :: "unit syslog_env" where
  "example_syslog_env =
     \<lparr>ParsePriority = (\<lambda>b c n. Inr (\<lparr>P = 34, F_Value = 4, S_Value = 2\<rparr>, None, 4)),
      ParseHostname = (\<lambda>b c n. Inr ([], None, n)),
      NO_VERSION = - 1,
      ParseInLocation = (\<lambda>layout v loc. ((), None)),
      zero_Time = (), Time_Year = (\<lambda>t. 0), Now_Year = 2024,
      Date_with_year = (\<lambda>y t. t)\<rparr>"

definition example_parser :: "unit Parser" where
  "example_parser =
     \<lparr>buff = '':ab'', cursor = 0, l = 3, priority = zero_Priority, version = 0,
      header = \<lparr>timestamp = (), header_hostname = []\<rparr>,
      message = \<lparr>tag = [], content = []\<rparr>, location = ''UTC'', hostname = []\<rparr>"

section \<open>The configuration provider (core/config/provider/ConfigProvider.cpp)\<close>

text \<open>
  A \<^verbatim>\<open>std::filesystem::path\<close> is kept as its native string, on a POSIX system (no root
  names, separator \<^verbatim>\<open>/\<close>). There a path is absolute when it begins with the separator and
  has a file name when it is not empty and does not end with the separator, and
  \<^verbatim>\<open>p /= q\<close> replaces \<open>p\<close> by \<open>q\<close> when \<open>q\<close> is absolute; otherwise it adds a
  separator to \<open>p\<close> if \<open>p\<close> has a file name, and then \<open>q\<close>.
\<close>

type_synonym path = string

definition path_is_absolute :: "path \<Rightarrow> bool" where
  "path_is_absolute q = (q \<noteq> [] \<and> hd q = CHR ''/'')"

definition path_has_filename :: "path \<Rightarrow> bool" where
  "path_has_filename p = (p \<noteq> [] \<and> last p \<noteq> CHR ''/'')"

definition path_append :: "path \<Rightarrow> path \<Rightarrow> path" where
  "path_append p q =
     (if path_is_absolute q then q
      else (if path_has_filename p then p @ ''/'' else p) @ q)"

text \<open>
  The provider's two source directories; its mutexes are named by which one they are, and
  everything else a provider (or a class derived from it) holds is the record's extension.
  \<open>Init\<close> acts on the rest of the program through three calls, listed in the order it
  makes them.
\<close>

datatype mux_ref = mPipelineMux | mInstanceMux

record ConfigProvider =
  mPipelineSourceDir :: path
  mInstanceSourceDir :: path

datatype call =
    create_directories path
  | ConfigWatcher_AddSource path mux_ref
  | InstanceConfigWatcher_AddSource path mux_ref

text \<open>
  \<open>GetLoongcollectorConfDir\<close> is the configuration directory \<open>AppConfig\<close> reports, and
  \<open>fs_error\<close> tells for each path whether \<^verbatim>\<open>create_directories\<close> sets the error code
  \<open>ec\<close>; \<open>Init\<close> stores the code and never reads it.
\<close>

definition Init ::
  "(path \<Rightarrow> bool) \<Rightarrow> path \<Rightarrow> string \<Rightarrow> 'a ConfigProvider_scheme
   \<Rightarrow> 'a ConfigProvider_scheme \<times> call list" where
  "Init fs_error GetLoongcollectorConfDir dir this =
     (let pipelineDir = path_append (path_append GetLoongcollectorConfDir ''pipeline_config'') dir;
          this1 = this\<lparr>mPipelineSourceDir := pipelineDir\<rparr>;
          instanceDir = path_append (path_append GetLoongcollectorConfDir ''instance_config'') dir;
          this2 = this1\<lparr>mInstanceSourceDir := instanceDir\<rparr>;
          ec = fs_error (mPipelineSourceDir this2);
          calls1 = [create_directories (mPipelineSourceDir this2),
                    ConfigWatcher_AddSource (mPipelineSourceDir this2) mPipelineMux];
          ec = False;
          ec = fs_error (mInstanceSourceDir this2);
          calls2 = [create_directories (mInstanceSourceDir this2),
                    InstanceConfigWatcher_AddSource (mInstanceSourceDir this2) mInstanceMux]
      in (this2, calls1 @ calls2))"

text \<open>
  The directory the specification writes \<^verbatim>\<open><confDir>/<kind>/<dir>\<close>, read as text:
  the configuration directory, the kind's directory inside it and \<open>dir\<close> inside that. A
  separator is put behind the configuration directory unless it is empty or already ends
  with one.
\<close>

definition with_separator :: "path \<Rightarrow> path" where
  "with_separator p = (if p = [] \<or> last p = CHR ''/'' then p else p @ ''/'')"

definition spec_source_dir :: "path \<Rightarrow> string \<Rightarrow> string \<Rightarrow> path" where
  "spec_source_dir confDir kind dir = with_separator confDir @ kind @ ''/'' @ dir"

section \<open>The metric keys (core/monitor/metric_constants/MetricConstants.h)\<close>

text \<open>
  The header declares every key as \<^verbatim>\<open>extern const std::string\<close>; the strings themselves are
  defined in another translation unit. A key is therefore identified by the name the header
  declares it under, and each group of keys is the list of its declarations in the header's
  order.
\<close>

type_synonym metric_key = string

definition plugin_flusher_metric_keys :: "metric_key list" where
  "plugin_flusher_metric_keys =
     [''METRIC_PLUGIN_FLUSHER_OUT_EVENT_GROUPS_TOTAL'',
      ''METRIC_PLUGIN_FLUSHER_SEND_DONE_TOTAL'',
      ''METRIC_PLUGIN_FLUSHER_SUCCESS_TOTAL'',
      ''METRIC_PLUGIN_FLUSHER_NETWORK_ERROR_TOTAL'',
      ''METRIC_PLUGIN_FLUSHER_SERVER_ERROR_TOTAL'',
      ''METRIC_PLUGIN_FLUSHER_UNAUTH_ERROR_TOTAL'',
      ''METRIC_PLUGIN_FLUSHER_PARAMS_ERROR_TOTAL'',
      ''METRIC_PLUGIN_FLUSHER_OTHER_ERROR_TOTAL'']"

definition component_label_keys :: "metric_key list" where
  "component_label_keys =
     [''METRIC_LABEL_KEY_COMPONENT_NAME'',
      ''METRIC_LABEL_KEY_FLUSHER_PLUGIN_ID'',
      ''METRIC_LABEL_KEY_EXACTLY_ONCE_FLAG'',
      ''METRIC_LABEL_KEY_QUEUE_TYPE'']"

definition component_queue_metric_keys :: "metric_key list" where
  "component_queue_metric_keys =
     [''METRIC_COMPONENT_QUEUE_SIZE'',
      ''METRIC_COMPONENT_QUEUE_SIZE_BYTES'',
      ''METRIC_COMPONENT_QUEUE_VALID_TO_PUSH_FLAG'',
      ''METRIC_COMPONENT_QUEUE_EXTRA_BUFFER_SIZE'',
      ''METRIC_COMPONENT_QUEUE_EXTRA_BUFFER_SIZE_BYTES'',
      ''METRIC_COMPONENT_QUEUE_DISCARDED_EVENTS_TOTAL'']"


text \<open>
  Modelled from the spec: the six delivery outcome classes of its data model, which no source
  file defines. Each class is counted under the flusher key the header names after it.
\<close>

datatype DeliveryOutcome =
  Success | NetworkError | ServerError | UnauthorizedError | ParamsError | OtherError

fun flusher_outcome_key :: "DeliveryOutcome \<Rightarrow> metric_key" where
  "flusher_outcome_key Success = ''METRIC_PLUGIN_FLUSHER_SUCCESS_TOTAL''"
| "flusher_outcome_key NetworkError = ''METRIC_PLUGIN_FLUSHER_NETWORK_ERROR_TOTAL''"
| "flusher_outcome_key ServerError = ''METRIC_PLUGIN_FLUSHER_SERVER_ERROR_TOTAL''"
| "flusher_outcome_key UnauthorizedError = ''METRIC_PLUGIN_FLUSHER_UNAUTH_ERROR_TOTAL''"
| "flusher_outcome_key ParamsError = ''METRIC_PLUGIN_FLUSHER_PARAMS_ERROR_TOTAL''"
| "flusher_outcome_key OtherError = ''METRIC_PLUGIN_FLUSHER_OTHER_ERROR_TOTAL''"

text \<open>
  Modelled from the spec: what the queue metrics report (section 4.1 and the backpressure
  flag of section 4.5), each with the queue key the header names after it.
\<close>

datatype queue_quantity =
  SizeCount | SizeBytes | ExtraBufferCount | ExtraBufferBytes | DiscardedEvents | ValidToPushFlag

fun queue_quantity_key :: "queue_quantity \<Rightarrow> metric_key" where
  "queue_quantity_key SizeCount = ''METRIC_COMPONENT_QUEUE_SIZE''"
| "queue_quantity_key SizeBytes = ''METRIC_COMPONENT_QUEUE_SIZE_BYTES''"
| "queue_quantity_key ExtraBufferCount = ''METRIC_COMPONENT_QUEUE_EXTRA_BUFFER_SIZE''"
| "queue_quantity_key ExtraBufferBytes = ''METRIC_COMPONENT_QUEUE_EXTRA_BUFFER_SIZE_BYTES''"
| "queue_quantity_key DiscardedEvents = ''METRIC_COMPONENT_QUEUE_DISCARDED_EVENTS_TOTAL''"
| "queue_quantity_key ValidToPushFlag = ''METRIC_COMPONENT_QUEUE_VALID_TO_PUSH_FLAG''"

text \<open>
  Modelled from the spec: the four namespacing labels of the metrics interface (section 6),
  each with the component label key the header names after it.
\<close>

datatype namespacing_label = ComponentName | FlusherPluginId | QueueType | ExactlyOnceFlag

fun namespacing_label_key :: "namespacing_label \<Rightarrow> metric_key" where
  "namespacing_label_key ComponentName = ''METRIC_LABEL_KEY_COMPONENT_NAME''"
| "namespacing_label_key FlusherPluginId = ''METRIC_LABEL_KEY_FLUSHER_PLUGIN_ID''"
| "namespacing_label_key QueueType = ''METRIC_LABEL_KEY_QUEUE_TYPE''"
| "namespacing_label_key ExactlyOnceFlag = ''METRIC_LABEL_KEY_EXACTLY_ONCE_FLAG''"

section \<open>The bounded queue, the rate limiters and the path between the two queues\<close>

text \<open>
  Modelled from the spec: the Queue of its data model (section 3) with the operations of
  section 4.1; the queue classes are not among the source files. A queue maps a key to the
  sequence of elements it holds for that key, oldest first, has a capacity and an overflow
  allowance for each key, and counts the elements it has discarded. \<open>Push\<close> gives false and
  counts the element as discarded when the key already holds capacity plus overflow elements;
  otherwise it appends the element and gives true. \<open>Pop\<close> never blocks: it takes the oldest
  element of the key, if there is one.
\<close>

record QueueKey =
  region :: string
  project :: string
  logical_store :: string
  shard :: nat

record 'e Queue =
  capacity :: nat
  overflow :: nat
  held :: "QueueKey \<Rightarrow> 'e list"
  discard_counter :: nat

definition Push :: "QueueKey \<Rightarrow> 'e \<Rightarrow> 'e Queue \<Rightarrow> 'e Queue \<times> bool" where
  "Push k e q =
     (if length (held q k) < capacity q + overflow q
      then (q\<lparr>held := (held q)(k := held q k @ [e])\<rparr>, True)
      else (q\<lparr>discard_counter := discard_counter q + 1\<rparr>, False))"

definition Pop :: "QueueKey \<Rightarrow> 'e Queue \<Rightarrow> 'e Queue \<times> 'e option" where
  "Pop k q =
     (case held q k of
        [] \<Rightarrow> (q, None)
      | e # rest \<Rightarrow> (q\<lparr>held := (held q)(k := rest)\<rparr>, Some e))"

text \<open>
  A sequence of operations on one queue; the run gives the queue it ends with and how many
  pushes it rejected.
\<close>

datatype 'e queue_op = PushOp QueueKey 'e | PopOp QueueKey

fun run_queue :: "'e queue_op list \<Rightarrow> 'e Queue \<Rightarrow> 'e Queue \<times> nat" where
  "run_queue [] q = (q, 0)"
| "run_queue (PushOp k e # ops) q =
     (case Push k e q of
        (q', accepted) \<Rightarrow>
          (case run_queue ops q' of
             (q'', rejected) \<Rightarrow> (q'', (if accepted then 0 else 1) + rejected)))"
| "run_queue (PopOp k # ops) q = run_queue ops (fst (Pop k q))"

definition within_bound :: "'e Queue \<Rightarrow> bool" where
  "within_bound q = (\<forall>k. length (held q k) \<le> capacity q + overflow q)"

definition empty_queue :: "nat \<Rightarrow> nat \<Rightarrow> 'e Queue" where
  "empty_queue cap ovf = \<lparr>capacity = cap, overflow = ovf, held = (\<lambda>k. []), discard_counter = 0\<rparr>"







text \<open>
  Modelled from the spec: the path of an EventGroup from the Process Queue to the Sender
  Queue (sections 2, 4.1 to 4.5 and 5); the batcher, router, serializer and compressor are
  not among the source files. The stages change their state under the lock of the key they
  work on, so a run is a sequence of steps, each on one key:
  \<^item> \<open>Submit\<close>: a producer pushes an EventGroup to the Process Queue;
  \<^item> \<open>BatcherPop\<close>: while the Sender Queue is valid to push for the key, the Batcher pops
    the oldest EventGroup of the key and adds it to the key's open Batch;
  \<^item> \<open>CloseBatch\<close>: the open Batch of the key is closed as a whole (by size, by age or at
    shutdown) and a new empty one is opened; the closed Batch is routed, serialized and
    compressed into one Item, which is pushed to the Sender Queue, or it is discarded when
    no target resolves or serialization fails (the flag of the step);
  \<^item> \<open>FlusherPop\<close>: the Flusher Runner takes the oldest Item of the key.
  An Item stands for the Batch it was made from, as the round trip of section 8 has it. Two
  histories are kept for each key: the EventGroups pushed to the Process Queue and the Items
  appended to the Sender Queue, both in the order it happened.
\<close>

record 'e Item =
  item_key :: QueueKey
  batch :: "'e list"
  retry_counter :: nat

record 'e pipeline =
  process_queue :: "'e Queue"
  open_batch :: "QueueKey \<Rightarrow> 'e list"
  sender_queue :: "'e Item Queue"
  high_water_mark :: nat
  discarded_batches :: nat
  pushed_history :: "QueueKey \<Rightarrow> 'e list"
  appended_history :: "QueueKey \<Rightarrow> 'e Item list"

definition ValidToPush :: "'e pipeline \<Rightarrow> QueueKey \<Rightarrow> bool" where
  "ValidToPush s k = (length (held (sender_queue s) k) < high_water_mark s)"

datatype 'e action =
    Submit QueueKey 'e
  | BatcherPop QueueKey
  | CloseBatch QueueKey bool
  | FlusherPop QueueKey

fun step :: "'e action \<Rightarrow> 'e pipeline \<Rightarrow> 'e pipeline" where
  "step (Submit k e) s =
     s\<lparr>process_queue := fst (Push k e (process_queue s)),
       pushed_history := (pushed_history s)(k := pushed_history s k @ [e])\<rparr>"
| "step (BatcherPop k) s =
     (if ValidToPush s k
      then (case Pop k (process_queue s) of
              (pq, None) \<Rightarrow> s
            | (pq, Some e) \<Rightarrow>
                s\<lparr>process_queue := pq, open_batch := (open_batch s)(k := open_batch s k @ [e])\<rparr>)
      else s)"
| "step (CloseBatch k deliverable) s =
     (if open_batch s k = [] then s
      else (let closed = open_batch s k;
                s1 = s\<lparr>open_batch := (open_batch s)(k := [])\<rparr>
            in if \<not> deliverable then s1\<lparr>discarded_batches := discarded_batches s1 + 1\<rparr>
               else (let it = \<lparr>item_key = k, batch = closed, retry_counter = 0\<rparr>
                     in case Push k it (sender_queue s1) of
                          (sq, True) \<Rightarrow>
                            s1\<lparr>sender_queue := sq,
                                appended_history := (appended_history s1)(k := appended_history s1 k @ [it])\<rparr>
                        | (sq, False) \<Rightarrow> s1\<lparr>sender_queue := sq\<rparr>)))"
| "step (FlusherPop k) s = s\<lparr>sender_queue := fst (Pop k (sender_queue s))\<rparr>"

definition run_pipeline :: "'e action list \<Rightarrow> 'e pipeline \<Rightarrow> 'e pipeline" where
  "run_pipeline as s = fold step as s"

definition start_pipeline :: "nat \<Rightarrow> nat \<Rightarrow> nat \<Rightarrow> nat \<Rightarrow> nat \<Rightarrow> 'e pipeline" where
  "start_pipeline pcap povf scap sovf hwm =
     \<lparr>process_queue = empty_queue pcap povf, open_batch = (\<lambda>k. []),
      sender_queue = empty_queue scap sovf, high_water_mark = hwm, discarded_batches = 0,
      pushed_history = (\<lambda>k. []), appended_history = (\<lambda>k. [])\<rparr>"

text \<open>The EventGroups of the Items appended for a key, in the order of appending.\<close>

definition delivered_order :: "'e pipeline \<Rightarrow> QueueKey \<Rightarrow> 'e list" where
  "delivered_order s k = concat (map batch (appended_history s k))"

text \<open>
  What every step keeps for every key: the EventGroups already appended to the Sender Queue,
  then those of the open Batch, then those still in the Process Queue are, in this order, a
  subsequence of the EventGroups pushed.
\<close>

definition fifo_inv :: "'e pipeline \<Rightarrow> QueueKey \<Rightarrow> bool" where
  "fifo_inv s k =
     subseq (delivered_order s k @ open_batch s k @ held (process_queue s) k) (pushed_history s k)"

text \<open>Inputs for evaluating the queue, the fetch and the path.\<close>

definition example_key :: QueueKey where
  "example_key = \<lparr>region = ''cn-hangzhou'', project = ''p'', logical_store = ''s'', shard = 0\<rparr>"

definition example_ops :: "nat queue_op list" where
  "example_ops =
     [PushOp example_key 1, PushOp example_key 2, PushOp example_key 3, PopOp example_key,
      PushOp example_key 4, PushOp example_key 5]"



definition example_run :: "nat action list" where
  "example_run =
     [Submit example_key 1, Submit example_key 2, BatcherPop example_key, Submit example_key 3,
      BatcherPop example_key, CloseBatch example_key True, BatcherPop example_key,
      CloseBatch example_key False, Submit example_key 4, BatcherPop example_key,
      CloseBatch example_key True]"

section \<open>Theorems\<close>

subsection \<open>Metric export\<close>

text \<open>
  Claim C10. For every \<open>metricType\<close> other than \<^verbatim>\<open>"direct"\<close> and \<^verbatim>\<open>"cpp_provided"\<close>,
  \<open>GetMetrics\<close> returns the empty slice that is not nil; the function has no error result and
  is total, so an unrecognised type cannot make it fail.
\<close>

theorem GetMetrics_unrecognised_empty:
  assumes "metricType \<noteq> ''direct''" and "metricType \<noteq> ''cpp_provided''"
  shows "GetMetrics env metricType = Slice [] \<and> GetMetrics env metricType \<noteq> NilSlice
         \<and> length (items (GetMetrics env metricType)) = 0"
  using assms by (simp add: GetMetrics_def MetricExportTypeGo_def MetricExportTypeCpp_def)

theorem GetMetrics_unrecognised_empty_witness:
  "\<forall>env. ''prometheus'' \<noteq> ''direct'' \<and> ''prometheus'' \<noteq> ''cpp_provided''
         \<and> GetMetrics env ''prometheus'' = Slice []
         \<and> GetMetrics env ''prometheus'' \<noteq> NilSlice
         \<and> length (items (GetMetrics env ''prometheus'')) = 0"
  using GetMetrics_unrecognised_empty [of "''prometheus''"] by simp

text \<open>What the export functions append, element by element.\<close>

lemma items_append_slice: "items (append_slice s t) = items s @ items t"
  by (cases s) simp_all

lemma items_fold_append_slice:
  "items (fold (\<lambda>recs metrics. append_slice metrics recs) rs acc) = items acc @ concat (map items rs)"
  by (induction rs arbitrary: acc) (simp_all add: items_append_slice)

lemma items_GetGoDirectMetrics:
  "items (GetGoDirectMetrics env) =
     concat (map items (ExportMetricRecords env)) @ items (GetMetaManagerMetrics env)"
  by (simp add: GetGoDirectMetrics_def GetGoPluginMetrics_def items_append_slice
      items_fold_append_slice del: append_slice.simps)

lemma dom_GetAgentStat_metric:
  "dom (fold (push_sample env) (range_metricNames env) Map.empty) =
     {MetricAgentMemoryGo env, MetricAgentGoRoutinesTotal env}"
  by (auto simp: range_metricNames_def metricNames_def push_sample_def metricNames_at_def Let_def)

lemma GetGoCppProvidedMetrics_one:
  "\<exists>m. GetGoCppProvidedMetrics env = Slice [m]
       \<and> dom m = {MetricAgentMemoryGo env, MetricAgentGoRoutinesTotal env}"
  by (simp add: GetGoCppProvidedMetrics_def GetAgentStat_def dom_GetAgentStat_metric)

text \<open>
  Claim C3. What \<open>GetMetrics\<close> emits is a sequence of maps from strings to strings and nothing
  else: for \<^verbatim>\<open>"direct"\<close> the records the loaded configurations export, one after the other
  and unchanged, followed by those of the meta manager; for \<^verbatim>\<open>"cpp_provided"\<close> one map whose
  keys are the two agent keys. And the header's component label keys hold a key of their own
  for each of the four namespacing labels: component name, flusher plugin id, queue type and
  exactly-once flag.
\<close>

theorem GetMetrics_flat_maps_namespaced:
  "items (GetMetrics env ''direct'') =
     concat (map items (ExportMetricRecords env)) @ items (GetMetaManagerMetrics env)
   \<and> (\<exists>m. GetMetrics env ''cpp_provided'' = Slice [m]
          \<and> dom m = {MetricAgentMemoryGo env, MetricAgentGoRoutinesTotal env})
   \<and> inj namespacing_label_key
   \<and> range namespacing_label_key = set component_label_keys"
proof (intro conjI)
  show "items (GetMetrics env ''direct'') =
      concat (map items (ExportMetricRecords env)) @ items (GetMetaManagerMetrics env)"
    by (simp add: GetMetrics_def MetricExportTypeGo_def items_GetGoDirectMetrics)
  show "\<exists>m. GetMetrics env ''cpp_provided'' = Slice [m]
      \<and> dom m = {MetricAgentMemoryGo env, MetricAgentGoRoutinesTotal env}"
    using GetGoCppProvidedMetrics_one [of env]
    by (simp add: GetMetrics_def MetricExportTypeGo_def MetricExportTypeCpp_def)
  show "inj namespacing_label_key"
  proof (rule injI)
    fix x y assume "namespacing_label_key x = namespacing_label_key y"
    then show "x = y" by (cases x; cases y; simp)
  qed
  have U: "(UNIV :: namespacing_label set) = {ComponentName, FlusherPluginId, QueueType, ExactlyOnceFlag}"
    using namespacing_label.exhaust by auto
  show "range namespacing_label_key = set component_label_keys"
    unfolding U by (simp add: component_label_keys_def insert_commute)
qed

subsection \<open>The metric keys\<close>

text \<open>
  Claim C4. Each of the six delivery outcome classes has a counter key of its own among the
  flusher keys the header declares: the keys of two different classes differ.
\<close>

theorem flusher_outcome_keys_distinct:
  "inj flusher_outcome_key
   \<and> (\<forall>outcome. flusher_outcome_key outcome \<in> set plugin_flusher_metric_keys)"
proof
  show "inj flusher_outcome_key"
  proof (rule injI)
    fix x y assume "flusher_outcome_key x = flusher_outcome_key y"
    then show "x = y" by (cases x; cases y; simp)
  qed
  show "\<forall>outcome. flusher_outcome_key outcome \<in> set plugin_flusher_metric_keys"
  proof
    fix outcome show "flusher_outcome_key outcome \<in> set plugin_flusher_metric_keys"
      by (cases outcome) (simp_all add: plugin_flusher_metric_keys_def)
  qed
qed

text \<open>
  Claim C6. The queue keys the header declares are pairwise different, and they are one key
  each for the size in elements, the size in bytes, the extra buffer's use in elements and in
  bytes, the discarded events and the valid-to-push flag.
\<close>

theorem queue_metric_keys_distinct:
  "distinct component_queue_metric_keys
   \<and> inj queue_quantity_key
   \<and> range queue_quantity_key = set component_queue_metric_keys"
proof (intro conjI)
  show "distinct component_queue_metric_keys" by (simp add: component_queue_metric_keys_def)
  show "inj queue_quantity_key"
  proof (rule injI)
    fix x y assume "queue_quantity_key x = queue_quantity_key y"
    then show "x = y" by (cases x; cases y; simp)
  qed
  have U: "(UNIV :: queue_quantity set) =
      {SizeCount, SizeBytes, ExtraBufferCount, ExtraBufferBytes, DiscardedEvents, ValidToPushFlag}"
    using queue_quantity.exhaust by auto
  show "range queue_quantity_key = set component_queue_metric_keys"
    unfolding U by (simp add: component_queue_metric_keys_def insert_commute)
qed

subsection \<open>The syslog parser\<close>

text \<open>Each turn of the tag loop adds at most one byte to the tag and moves the cursor on.\<close>

lemma parseTag_loop_length:
  "parseTag_loop b limit c tg enough = Inr (c', tg') \<Longrightarrow>
   int (length tg') \<le> int (length tg) + max 0 (limit - c)"
proof (induction b limit c tg enough rule: parseTag_loop.induct)
  case (1 b limit c tg enough)
  show ?case
  proof (cases "c < limit")
    case False
    with "1.prems" show ?thesis by (simp add: parseTag_loop.simps)
  next
    case True
    show ?thesis
    proof (cases "index_at b c")
      case (Inl e)
      with True "1.prems" show ?thesis by (simp add: parseTag_loop.simps)
    next
      case (Inr x)
      with True "1.prems" "1.IH" show ?thesis
        by (auto simp: parseTag_loop.simps [of b limit c] split: if_splits)
    qed
  qed
qed

lemma parseTag_loop_returns:
  "0 \<le> c \<Longrightarrow> limit \<le> int (length b) \<Longrightarrow> \<exists>r. parseTag_loop b limit c tg enough = Inr r"
proof (induction b limit c tg enough rule: parseTag_loop.induct)
  case (1 b limit c tg enough)
  show ?case
  proof (cases "c < limit")
    case False
    then show ?thesis by (simp add: parseTag_loop.simps)
  next
    case True
    with "1.prems" have ix: "index_at b c = Inr (b ! nat c)" by (simp add: index_at_def)
    from "1.prems" have c1: "0 \<le> c + 1" by simp
    show ?thesis
      using True ix "1.IH"(1) [OF True ix _ _ c1 "1.prems"(2)] "1.IH"(2) [OF True ix _ _ c1 "1.prems"(2)]
      by (auto simp: parseTag_loop.simps [of b limit c])
  qed
qed

text \<open>
  Claim C9. Whenever \<open>parseTag\<close> returns, its error is nil, the tag has at most 32 bytes, and
  with an empty tag the parser is the one it was called on (the cursor is back at its value at
  entry and nothing else has changed). It does return whenever the cursor is not negative and
  the length field does not exceed the buffer, which \<open>NewParser\<close> sets up and every method keeps.
\<close>

theorem parseTag_tag_bounded_cursor_restored:
  "(\<forall>tg err p'. parseTag p = Inr (tg, err, p') \<longrightarrow>
       err = None \<and> length tg \<le> 32 \<and> (tg = [] \<longrightarrow> p' = p))
   \<and> (0 \<le> cursor p \<and> l p \<le> int (length (buff p)) \<longrightarrow>
       (\<exists>tg p'. parseTag p = Inr (tg, None, p')))"
proof (intro conjI allI impI)
  fix tg err p'
  assume ret: "parseTag p = Inr (tg, err, p')"
  then obtain c where
    loop: "parseTag_loop (buff p) (min (l p) (cursor p + 32)) (cursor p) [] False = Inr (c, tg)"
    and p': "p' = p\<lparr>cursor := (if length tg = 0 then cursor p else c)\<rparr>"
    and err: "err = None"
    by (auto simp: parseTag_def Let_def split: sum.splits)
  from parseTag_loop_length [OF loop]
  have "int (length tg) \<le> max 0 (min (l p) (cursor p + 32) - cursor p)" by simp
  then show "length tg \<le> 32" by linarith
  show "err = None" by (rule err)
  show "p' = p" if "tg = []" using that p' by simp
next
  assume ok: "0 \<le> cursor p \<and> l p \<le> int (length (buff p))"
  then have "min (l p) (cursor p + 32) \<le> int (length (buff p))" by linarith
  with ok obtain r where
    "parseTag_loop (buff p) (min (l p) (cursor p + 32)) (cursor p) [] False = Inr r"
    using parseTag_loop_returns by blast
  then show "\<exists>tg p'. parseTag p = Inr (tg, None, p')"
    by (cases r) (simp add: parseTag_def Let_def)
qed

theorem parseTag_tag_bounded_cursor_restored_witness:
  "parseTag example_parser = Inr ([], None, example_parser)
   \<and> 0 \<le> cursor example_parser \<and> l example_parser \<le> int (length (buff example_parser))"
  using parseTag_tag_bounded_cursor_restored [of example_parser]
  by (simp add: example_parser_def parseTag_def parseTag_loop.simps index_at_def)

text \<open>
  When the time stamp ends the buffer, \<open>parseTimestamp\<close> succeeds and leaves the cursor at
  the length: its own read of the next byte is guarded by \<^verbatim>\<open>p.cursor < p.l\<close>.
\<close>

lemma parseTimestamp_loop_first:
  assumes "cursor p + 15 \<le> l p" and "0 \<le> cursor p" and "l p = int (length (buff p))"
    and "ParseInLocation env ''Jan 02 15:04:05'' (take 15 (drop (nat (cursor p)) (buff p))) (location p)
         = (ts, None)"
  shows "parseTimestamp_loop env p tsFmts (zero_Time env) 0 = Inr (ts, 15, True)"
  using assms by (simp add: tsFmts_def slice_of_def)

lemma parseTimestamp_at_end:
  assumes "cursor p + 15 = l p" and "0 \<le> cursor p" and "l p = int (length (buff p))"
    and "ParseInLocation env ''Jan 02 15:04:05'' (drop (nat (cursor p)) (buff p)) (location p)
         = (ts, None)"
  shows "parseTimestamp env p = Inr (fixTimestampIfNeeded env ts, None, p\<lparr>cursor := l p\<rparr>)"
proof -
  from assms(1-3) have "take 15 (drop (nat (cursor p)) (buff p)) = drop (nat (cursor p)) (buff p)"
    by simp
  with assms have "parseTimestamp_loop env p tsFmts (zero_Time env) 0 = Inr (ts, 15, True)"
    using parseTimestamp_loop_first [of p env ts] by simp
  with assms(1) show ?thesis
    by (simp add: parseTimestamp_def skip_space_guarded_def)
qed

text \<open>
  Claim C8 (the code departs from it). \<open>Parse\<close> reads out of range: when the priority parse
  succeeds and leaves the cursor \<open>c\<close>, the 15 bytes from \<open>c\<close> are the whole rest of the buffer
  and parse as a time stamp, and the host name is either preset or parsed without moving the
  cursor from the end, then priority and header succeed with the cursor equal to the length,
  and the read \<^verbatim>\<open>p.buff[p.cursor]\<close> panics with an index out of range.
\<close>

theorem Parse_space_check_out_of_range:
  assumes pri: "ParsePriority env b 0 (int (length b)) = Inr (pri, None, c)"
    and c: "0 \<le> c" "c + 15 = int (length b)"
    and ts: "ParseInLocation env ''Jan 02 15:04:05'' (drop (nat c) b) ''UTC'' = (ts, None)"
    and host: "h \<noteq> [] \<or>
       ParseHostname env b (int (length b)) (int (length b)) = Inr (hn, None, int (length b))"
  shows "Parse env (Hostname (NewParser env b) h) = Inl IndexOutOfRange"
proof -
  let ?p = "Hostname (NewParser env b) h"
  let ?p1 = "?p\<lparr>cursor := c\<rparr>"
  let ?p2 = "?p1\<lparr>cursor := l ?p1\<rparr>"
  have pp: "parsePriority env ?p = Inr (pri, None, ?p1)"
    using pri by (simp add: parsePriority_def Hostname_def NewParser_def)
  have pt: "parseTimestamp env ?p1 = Inr (fixTimestampIfNeeded env ts, None, ?p2)"
    using c ts by (intro parseTimestamp_at_end) (simp_all add: Hostname_def NewParser_def)
  have ph: "\<exists>x. parseHostname env ?p2 = Inr (x, None, ?p2)"
    using host by (auto simp: parseHostname_def Hostname_def NewParser_def)
  then obtain x where "parseHostname env ?p2 = Inr (x, None, ?p2)" ..
  with pt have hdr: "parseHeader env ?p1 =
      Inr (\<lparr>timestamp = fixTimestampIfNeeded env ts, header_hostname = x\<rparr>, None, ?p2)"
    by (simp add: parseHeader_def)
  have "index_at (buff ?p2) (cursor ?p2) = Inl IndexOutOfRange"
    by (simp add: index_at_def Hostname_def NewParser_def)
  with pp hdr show ?thesis by (simp add: Parse_def)
qed

theorem Parse_space_check_out_of_range_witness:
  "Parse example_syslog_env (Hostname (NewParser example_syslog_env ''<34>Oct 11 22:14:15'') ''mymachine'')
     = Inl IndexOutOfRange
   \<and> Parse example_syslog_env (Hostname (NewParser example_syslog_env ''<34>Oct 11 22:14:15'') [])
     = Inl IndexOutOfRange"
  using
    Parse_space_check_out_of_range [of example_syslog_env "''<34>Oct 11 22:14:15''"
      "\<lparr>P = 34, F_Value = 4, S_Value = 2\<rparr>" 4 "()" "''mymachine''" "[]"]
    Parse_space_check_out_of_range [of example_syslog_env "''<34>Oct 11 22:14:15''"
      "\<lparr>P = 34, F_Value = 4, S_Value = 2\<rparr>" 4 "()" "[]" "[]"]
  by (simp add: example_syslog_env_def)

subsection \<open>The configuration provider\<close>

text \<open>
  Claim C7, as amended. For every \<open>dir\<close> that is not an absolute path, \<open>Init\<close> makes exactly
  four calls, in this order: it creates the pipeline directory
  \<^verbatim>\<open><confDir>/pipeline_config/<dir>\<close> and registers it with the pipeline \<open>ConfigWatcher\<close>
  under the pipeline mutex, then creates the instance directory
  \<^verbatim>\<open><confDir>/instance_config/<dir>\<close> and registers it with the \<open>InstanceConfigWatcher\<close>
  under the instance mutex. Whether a creation fails changes nothing (the result is the same
  for every \<open>fs_error\<close>), and of the provider only the two source directories are assigned:
  the rest of its state is as before.
\<close>

theorem Init_registers_two_sources:
  assumes "\<not> path_is_absolute dir"
  shows "Init fs_error confDir dir this =
           (this\<lparr>mPipelineSourceDir := spec_source_dir confDir ''pipeline_config'' dir,
                 mInstanceSourceDir := spec_source_dir confDir ''instance_config'' dir\<rparr>,
            [create_directories (spec_source_dir confDir ''pipeline_config'' dir),
             ConfigWatcher_AddSource (spec_source_dir confDir ''pipeline_config'' dir) mPipelineMux,
             create_directories (spec_source_dir confDir ''instance_config'' dir),
             InstanceConfigWatcher_AddSource (spec_source_dir confDir ''instance_config'' dir) mInstanceMux])
         \<and> ConfigProvider.more (fst (Init fs_error confDir dir this)) = ConfigProvider.more this"
  using assms
  by (auto simp add: Init_def Let_def path_append_def path_is_absolute_def path_has_filename_def
      spec_source_dir_def with_separator_def)

theorem Init_registers_two_sources_witness:
  "\<not> path_is_absolute ''local'' \<and>
   Init (\<lambda>p. True) ''/etc/ilogtail'' ''local'' \<lparr>mPipelineSourceDir = [], mInstanceSourceDir = []\<rparr>
   = (\<lparr>mPipelineSourceDir = ''/etc/ilogtail/pipeline_config/local'',
       mInstanceSourceDir = ''/etc/ilogtail/instance_config/local''\<rparr>,
      [create_directories ''/etc/ilogtail/pipeline_config/local'',
       ConfigWatcher_AddSource ''/etc/ilogtail/pipeline_config/local'' mPipelineMux,
       create_directories ''/etc/ilogtail/instance_config/local'',
       InstanceConfigWatcher_AddSource ''/etc/ilogtail/instance_config/local'' mInstanceMux])"
  using Init_registers_two_sources [of "''local''" "\<lambda>p. True" "''/etc/ilogtail''"
      "\<lparr>mPipelineSourceDir = [], mInstanceSourceDir = []\<rparr>"]
  by (simp add: path_is_absolute_def spec_source_dir_def with_separator_def)

text \<open>
  Claim C7 as stated fails for an absolute \<open>dir\<close>: with the configuration directory
  \<^verbatim>\<open>/etc/ilogtail\<close> and \<open>dir\<close> \<^verbatim>\<open>/tmp\<close>, both watchers are given \<^verbatim>\<open>/tmp\<close> itself, which
  is neither the pipeline nor the instance directory under the configuration directory.
\<close>

theorem Init_absolute_dir_counterexample:
  "Init (\<lambda>p. False) ''/etc/ilogtail'' ''/tmp'' \<lparr>mPipelineSourceDir = [], mInstanceSourceDir = []\<rparr>
   = (\<lparr>mPipelineSourceDir = ''/tmp'', mInstanceSourceDir = ''/tmp''\<rparr>,
      [create_directories ''/tmp'', ConfigWatcher_AddSource ''/tmp'' mPipelineMux,
       create_directories ''/tmp'', InstanceConfigWatcher_AddSource ''/tmp'' mInstanceMux])
   \<and> ''/tmp'' \<noteq> spec_source_dir ''/etc/ilogtail'' ''pipeline_config'' ''/tmp''
   \<and> ''/tmp'' \<noteq> spec_source_dir ''/etc/ilogtail'' ''instance_config'' ''/tmp''"
  by (simp add: Init_def Let_def path_append_def path_is_absolute_def path_has_filename_def
      spec_source_dir_def with_separator_def)

subsection \<open>The bounded queue\<close>

lemma Push_within_bound: "within_bound q \<Longrightarrow> within_bound (fst (Push k e q))"
  by (auto simp: within_bound_def Push_def)

lemma Pop_within_bound:
  assumes b: "within_bound q"
  shows "within_bound (fst (Pop k q))"
proof (cases "held q k")
  case Nil
  with b show ?thesis by (simp add: Pop_def)
next
  case (Cons e rest)
  have "length (held (fst (Pop k q)) k') \<le> capacity q + overflow q" for k'
    using b Cons by (cases "k' = k") (auto simp: within_bound_def Pop_def dest: spec [of _ k])
  with Cons show ?thesis by (simp add: within_bound_def Pop_def)
qed

lemma Push_limits:
  "capacity (fst (Push k e q)) = capacity q \<and> overflow (fst (Push k e q)) = overflow q"
  by (simp add: Push_def)

lemma Pop_limits:
  "capacity (fst (Pop k q)) = capacity q \<and> overflow (fst (Pop k q)) = overflow q"
  by (simp add: Pop_def split: list.splits)

lemma Pop_discard: "discard_counter (fst (Pop k q)) = discard_counter q"
  by (simp add: Pop_def split: list.splits)

lemma Push_discard:
  "discard_counter (fst (Push k e q)) = discard_counter q + (if snd (Push k e q) then 0 else 1)"
  by (simp add: Push_def)

lemma run_queue_invariant:
  "within_bound q \<Longrightarrow>
   within_bound (fst (run_queue ops q))
   \<and> capacity (fst (run_queue ops q)) = capacity q
   \<and> overflow (fst (run_queue ops q)) = overflow q
   \<and> discard_counter (fst (run_queue ops q)) = discard_counter q + snd (run_queue ops q)"
proof (induction ops arbitrary: q)
  case Nil
  then show ?case by simp
next
  case (Cons op ops)
  show ?case
  proof (cases op)
    case (PushOp k e)
    obtain q' acc where P: "Push k e q = (q', acc)" by (cases "Push k e q")
    have b': "within_bound q'" using Push_within_bound [OF Cons.prems, of k e] P by simp
    have lim: "capacity q' = capacity q" "overflow q' = overflow q"
      using Push_limits [of k e q] P by simp_all
    have d: "discard_counter q' = discard_counter q + (if acc then 0 else 1)"
      using Push_discard [of k e q] P by simp
    obtain q'' r where R: "run_queue ops q' = (q'', r)" by (cases "run_queue ops q'")
    from Cons.IH [OF b'] lim d PushOp P R show ?thesis
      by (cases acc) simp_all
  next
    case (PopOp k)
    have b': "within_bound (fst (Pop k q))" by (rule Pop_within_bound [OF Cons.prems])
    from Cons.IH [OF b'] PopOp Pop_limits [of k q] Pop_discard [of k q] show ?thesis by simp
  qed
qed

text \<open>
  Claim C1. From a queue within its bound (an empty one is), every sequence of pushes and pops
  leaves every key with at most capacity plus overflow elements, and the discard counter has
  grown by exactly the number of pushes rejected on the way. A single push is accepted exactly
  when the key holds fewer than capacity plus overflow elements: accepted, it appends the
  element to the key and leaves the counter; rejected, it leaves the elements and adds one to
  the counter.
\<close>

theorem queue_bound_and_discards:
  assumes "within_bound q"
  shows "(\<forall>k. length (held (fst (run_queue ops q)) k) \<le> capacity q + overflow q)
       \<and> discard_counter (fst (run_queue ops q)) = discard_counter q + snd (run_queue ops q)
       \<and> (snd (Push k e q) \<longleftrightarrow> length (held q k) < capacity q + overflow q)
       \<and> (snd (Push k e q) \<longrightarrow>
            held (fst (Push k e q)) = (held q)(k := held q k @ [e])
            \<and> discard_counter (fst (Push k e q)) = discard_counter q)
       \<and> (\<not> snd (Push k e q) \<longrightarrow>
            held (fst (Push k e q)) = held q
            \<and> discard_counter (fst (Push k e q)) = discard_counter q + 1)"
proof (intro conjI)
  from run_queue_invariant [OF assms, of ops]
  show "\<forall>k. length (held (fst (run_queue ops q)) k) \<le> capacity q + overflow q"
    by (auto simp: within_bound_def)
  from run_queue_invariant [OF assms, of ops]
  show "discard_counter (fst (run_queue ops q)) = discard_counter q + snd (run_queue ops q)"
    by simp
qed (simp_all add: Push_def)

theorem queue_bound_and_discards_witness:
  "within_bound (empty_queue 1 1 :: nat Queue)
   \<and> held (fst (run_queue example_ops (empty_queue 1 1))) example_key = [2, 4]
   \<and> discard_counter (fst (run_queue example_ops (empty_queue 1 1))) = 2
   \<and> snd (run_queue example_ops (empty_queue 1 1)) = 2
   \<and> snd (Push example_key (7::nat) (empty_queue 1 1))
   \<and> \<not> snd (Push example_key (7::nat) (empty_queue 0 0))"
  using queue_bound_and_discards [of "empty_queue 1 1 :: nat Queue" example_ops example_key 7]
    queue_bound_and_discards [of "empty_queue 0 0 :: nat Queue" "[]" example_key 7]
  by (simp add: within_bound_def empty_queue_def Push_def Pop_def example_ops_def)

subsection \<open>The rate limiters\<close>






subsection \<open>From the Process Queue to the Sender Queue\<close>

lemma held_Push:
  "held (fst (Push k e q)) k' =
     (if k' = k \<and> snd (Push k e q) then held q k @ [e] else held q k')"
  by (simp add: Push_def)

lemma held_Pop_Some:
  "Pop k q = (q', Some e) \<Longrightarrow> held q k = e # held q' k \<and> (\<forall>k'. k' \<noteq> k \<longrightarrow> held q' k' = held q k')"
  by (auto simp: Pop_def split: list.splits)

lemma step_Submit: "fifo_inv s k' \<Longrightarrow> fifo_inv (step (Submit k e) s) k'"
proof -
  assume i: "fifo_inv s k'"
  show ?thesis
  proof (cases "k' = k \<and> snd (Push k e (process_queue s))")
    case True
    from i have "subseq ((delivered_order s k @ open_batch s k @ held (process_queue s) k) @ [e])
        (pushed_history s k @ [e])"
      unfolding fifo_inv_def using True by (intro list_emb_append_mono) simp_all
    with True show ?thesis by (simp add: fifo_inv_def delivered_order_def held_Push)
  next
    case False
    show ?thesis
    proof (cases "k' = k")
      case True
      with False have "\<not> snd (Push k e (process_queue s))" by simp
      with True i show ?thesis
        by (simp add: fifo_inv_def delivered_order_def held_Push subseq_rev_drop_many)
    next
      case False
      with i show ?thesis by (simp add: fifo_inv_def delivered_order_def held_Push)
    qed
  qed
qed

lemma step_BatcherPop: "fifo_inv s k' \<Longrightarrow> fifo_inv (step (BatcherPop k) s) k'"
proof -
  assume i: "fifo_inv s k'"
  show ?thesis
  proof (cases "ValidToPush s k")
    case False
    with i show ?thesis by simp
  next
    case True
    obtain pq r where P: "Pop k (process_queue s) = (pq, r)" by (cases "Pop k (process_queue s)")
    show ?thesis
    proof (cases r)
      case None
      with True P i show ?thesis by simp
    next
      case (Some e)
      from held_Pop_Some [OF P [unfolded Some]]
      have h: "held (process_queue s) k = e # held pq k" "\<And>k'. k' \<noteq> k \<Longrightarrow> held pq k' = held (process_queue s) k'"
        by simp_all
      show ?thesis
      proof (cases "k' = k")
        case True
        with \<open>ValidToPush s k\<close> P Some i h(1) show ?thesis
          by (simp add: fifo_inv_def delivered_order_def)
      next
        case False
        with \<open>ValidToPush s k\<close> P Some i h(2) show ?thesis
          by (simp add: fifo_inv_def delivered_order_def)
      qed
    qed
  qed
qed

lemma drop_middle: "subseq (xs @ ys @ zs) ws \<Longrightarrow> subseq (xs @ zs) ws"
proof -
  assume a: "subseq (xs @ ys @ zs) ws"
  have "subseq (xs @ zs) (xs @ ys @ zs)"
    by (intro list_emb_append_mono subseq_drop_many) simp_all
  from subseq_order.trans [OF this a] show ?thesis .
qed

lemma step_CloseBatch: "fifo_inv s k' \<Longrightarrow> fifo_inv (step (CloseBatch k d) s) k'"
proof -
  assume i: "fifo_inv s k'"
  show ?thesis
  proof (cases "open_batch s k = []")
    case True
    with i show ?thesis by simp
  next
    case ne: False
    let ?s1 = "s\<lparr>open_batch := (open_batch s)(k := [])\<rparr>"
    let ?it = "\<lparr>item_key = k, batch = open_batch s k, retry_counter = 0\<rparr>"
    have dropped: "fifo_inv ?s1 k'"
    proof (cases "k' = k")
      case True
      from i have "subseq (delivered_order s k @ held (process_queue s) k) (pushed_history s k)"
        unfolding fifo_inv_def True by (rule drop_middle)
      with True show ?thesis by (simp add: fifo_inv_def delivered_order_def)
    next
      case False
      with i show ?thesis by (simp add: fifo_inv_def delivered_order_def)
    qed
    show ?thesis
    proof (cases d)
      case False
      with ne dropped show ?thesis by (simp add: fifo_inv_def delivered_order_def Let_def)
    next
      case True
      obtain sq ok where P: "Push k ?it (sender_queue s) = (sq, ok)"
        by (cases "Push k ?it (sender_queue s)")
      show ?thesis
      proof (cases ok)
        case False
        with ne True P dropped show ?thesis by (simp add: fifo_inv_def delivered_order_def Let_def)
      next
        case ok: True
        show ?thesis
        proof (cases "k' = k")
          case True
          with ne \<open>d\<close> P ok i show ?thesis by (simp add: fifo_inv_def delivered_order_def Let_def)
        next
          case False
          with ne \<open>d\<close> P ok i show ?thesis by (simp add: fifo_inv_def delivered_order_def Let_def)
        qed
      qed
    qed
  qed
qed

lemma step_FlusherPop: "fifo_inv s k' \<Longrightarrow> fifo_inv (step (FlusherPop k) s) k'"
  by (simp add: fifo_inv_def delivered_order_def)

lemma step_fifo_inv: "fifo_inv s k' \<Longrightarrow> fifo_inv (step a s) k'"
  by (cases a) (simp_all only: step_Submit step_BatcherPop step_CloseBatch step_FlusherPop)

lemma run_fifo_inv: "fifo_inv s k \<Longrightarrow> fifo_inv (run_pipeline as s) k"
  unfolding run_pipeline_def
  by (induction as arbitrary: s) (simp_all add: step_fifo_inv)

lemma start_fifo_inv: "fifo_inv (start_pipeline a b c d h) k"
  by (simp add: fifo_inv_def start_pipeline_def delivered_order_def empty_queue_def)

text \<open>
  On the example run, the third EventGroup is in a Batch that is discarded: the order of the
  others is kept.
\<close>

lemma example_run_order:
  "delivered_order (run_pipeline example_run (start_pipeline 2 1 1 1 2)) example_key = [1, 2, 4]
   \<and> pushed_history (run_pipeline example_run (start_pipeline 2 1 1 1 2)) example_key = [1, 2, 3, 4]"
  by (simp add: example_run_def run_pipeline_def start_pipeline_def empty_queue_def
      delivered_order_def ValidToPush_def Push_def Pop_def Let_def)

text \<open>
  Claim C2. After every run of the path from its start, for every key, the EventGroups of
  the Items appended to the key's Sender Queue, in the order of appending, are a subsequence
  of the EventGroups pushed to the Process Queue under the key, in the order of pushing:
  nothing is reordered within a key between the two queues (EventGroups may be missing, those
  discarded on the way).
\<close>

theorem per_key_fifo:
  "\<forall>k. subseq (delivered_order (run_pipeline as (start_pipeline pcap povf scap sovf hwm)) k)
          (pushed_history (run_pipeline as (start_pipeline pcap povf scap sovf hwm)) k)"
proof
  fix k
  let ?s = "run_pipeline as (start_pipeline pcap povf scap sovf hwm)"
  have "fifo_inv ?s k" by (rule run_fifo_inv [OF start_fifo_inv])
  then have "subseq (delivered_order ?s k @ (open_batch ?s k @ held (process_queue ?s) k))
      (pushed_history ?s k)"
    by (simp add: fifo_inv_def)
  moreover have "subseq (delivered_order ?s k)
      (delivered_order ?s k @ (open_batch ?s k @ held (process_queue ?s) k))"
    by (rule list_emb_prefix) simp
  ultimately show "subseq (delivered_order ?s k) (pushed_history ?s k)"
    by (rule subseq_order.trans [rotated])
qed

end
